theory Spec2Isabelle
  imports Main
begin

section \<open>The productivity bot's inbound-message handler\<close>

text \<open>
  A shallow embedding of \<^verbatim>\<open>productivity_bot/inbound_message_helpers.py\<close>.
  Text is a list of characters; a character stands for the code point of the same number
  (U+0000 to U+00FF), and the character tables of Python's \<^verbatim>\<open>str.split\<close>,
  \<^verbatim>\<open>str.isdigit\<close> and \<^verbatim>\<open>int\<close> are taken on that range. Every exception the
  handler can raise is a value of \<open>error\<close>, and every function that touches the database
  takes the store and returns it updated, also when it raises.
\<close>

subsection \<open>Python's string operations\<close>

datatype error = IndexError | ValueError | TypeError

text \<open>
  \<^verbatim>\<open>str.split()\<close> without arguments: the whitespace characters are U+0009 to U+000D,
  U+001C to U+0020, U+0085 and U+00A0; runs of them separate the tokens and no token is empty.
\<close>

definition isspace :: "char \<Rightarrow> bool" where
  "isspace c =
     (let n = (of_char c :: nat)
      in (9 \<le> n \<and> n \<le> 13) \<or> (28 \<le> n \<and> n \<le> 32) \<or> n = 133 \<or> n = 160)"

text \<open>\<open>split_from cs cur\<close> scans \<open>cs\<close> with the token \<open>cur\<close> read so far.\<close>

fun split_from :: "string \<Rightarrow> string \<Rightarrow> string list" where
  "split_from [] cur = (if cur = [] then [] else [cur])"
| "split_from (c # cs) cur =
     (if isspace c then (if cur = [] then split_from cs [] else cur # split_from cs [])
      else split_from cs (cur @ [c]))"

definition split :: "string \<Rightarrow> string list" where
  "split s = split_from s []"

text \<open>
  \<^verbatim>\<open>str.isdigit()\<close>: the string is not empty and every character is a digit. Besides
  \<^verbatim>\<open>0\<close> to \<^verbatim>\<open>9\<close> the digits of the range are the superscripts U+00B2, U+00B3 and U+00B9.
\<close>

definition isdigit_char :: "char \<Rightarrow> bool" where
  "isdigit_char c =
     (let n = (of_char c :: nat)
      in (48 \<le> n \<and> n \<le> 57) \<or> n = 178 \<or> n = 179 \<or> n = 185)"

definition isdigit :: "string \<Rightarrow> bool" where
  "isdigit s = (s \<noteq> [] \<and> list_all isdigit_char s)"

text \<open>
  \<^verbatim>\<open>int(s)\<close> in base 10 on a string without whitespace (the tokens of \<open>split\<close> have
  none): an optional sign, then decimal digits, where single underscores may stand between
  two digits. Anything else raises ValueError, here \<open>None\<close>. The superscript digits are
  not decimal digits. The digit-count limit of recent interpreters is not part of the model.
\<close>

definition isdecimal_char :: "char \<Rightarrow> bool" where
  "isdecimal_char c = (let n = (of_char c :: nat) in 48 \<le> n \<and> n \<le> 57)"

definition digit_value :: "char \<Rightarrow> int" where
  "digit_value c = int (of_char c) - 48"

fun int_digits :: "int \<Rightarrow> string \<Rightarrow> int option" where
  "int_digits acc [] = Some acc"
| "int_digits acc (c # cs) =
     (if isdecimal_char c then int_digits (10 * acc + digit_value c) cs
      else if c = CHR ''_'' then
        (case cs of
           [] \<Rightarrow> None
         | d # ds \<Rightarrow> if isdecimal_char d then int_digits acc cs else None)
      else None)"

definition int_unsigned :: "string \<Rightarrow> int option" where
  "int_unsigned s =
     (case s of
        [] \<Rightarrow> None
      | c # cs \<Rightarrow> if isdecimal_char c then int_digits 0 s else None)"

definition py_int :: "string \<Rightarrow> int option" where
  "py_int s =
     (case s of
        [] \<Rightarrow> None
      | c # cs \<Rightarrow>
          if c = CHR ''-'' then map_option uminus (int_unsigned cs)
          else if c = CHR ''+'' then int_unsigned cs
          else int_unsigned s)"

text \<open>
  \<^verbatim>\<open>template % arg\<close> with a single string argument. \<^verbatim>\<open>%s\<close> takes the argument and
  \<^verbatim>\<open>%%\<close> is a percent sign; a second \<^verbatim>\<open>%s\<close> finds no argument left and a template
  that ends with the argument unused raises TypeError ("not all arguments converted during
  string formatting"). The program's templates hold no other conversion; the model reports
  one as ValueError. The flag says whether the argument has been used.
\<close>

definition prepend :: "string \<Rightarrow> error + string \<Rightarrow> error + string" where
  "prepend x r = (case r of Inl e \<Rightarrow> Inl e | Inr t \<Rightarrow> Inr (x @ t))"

fun format_from :: "string \<Rightarrow> bool \<Rightarrow> string \<Rightarrow> error + string" where
  "format_from [] used arg = (if used then Inr [] else Inl TypeError)"
| "format_from [c] used arg =
     (if c = CHR ''%'' then Inl ValueError else prepend [c] (format_from [] used arg))"
| "format_from (c # d # cs) used arg =
     (if c \<noteq> CHR ''%'' then prepend [c] (format_from (d # cs) used arg)
      else if d = CHR ''%'' then prepend ''%'' (format_from cs used arg)
      else if d = CHR ''s'' then
        (if used then Inl TypeError else prepend arg (format_from cs True arg))
      else Inl ValueError)"

definition percent_format :: "string \<Rightarrow> string \<Rightarrow> error + string" where
  "percent_format template arg = format_from template False arg"

subsection \<open>The store\<close>

text \<open>
  Modelled from the spec: the tables of \<^verbatim>\<open>productivity_bot.models\<close>, a module that
  is not among the sources. The fields are the ones the handler passes to the constructors.
  As in the specification's data model, a \<open>User\<close> is identified by its conversation and
  its name, and a row of \<open>ActiveLoops\<close> holds its user, the ping frequency and the
  countdown. The documentation of \<open>log_user_response\<close> names a third table, of the logged
  responses. A table is the list of its rows, oldest first.
\<close>

record User =
  space_name :: string
  user_name :: string

record ActiveLoops =
  user :: User
  mssg_freq :: int
  mins_to_mssg :: int

record store =
  users :: "User list"
  active_loops :: "ActiveLoops list"
  user_responses :: "(User \<times> string list) list"

text \<open>
  \<^verbatim>\<open>User.objects.get_or_create(space_name=..., user_name=...)[0]\<close>: the user's row, added
  to the table when it is not there.
\<close>

definition get_or_create :: "string \<Rightarrow> string \<Rightarrow> store \<Rightarrow> User \<times> store" where
  "get_or_create sn un s =
     (let u = \<lparr>space_name = sn, user_name = un\<rparr>
      in if u \<in> set (users s) then (u, s) else (u, s\<lparr>users := users s @ [u]\<rparr>))"

text \<open>\<^verbatim>\<open>ActiveLoops.objects.filter(user=user)\<close>\<close>

definition sessions_of :: "User \<Rightarrow> store \<Rightarrow> ActiveLoops list" where
  "sessions_of u s = filter (\<lambda>r. user r = u) (active_loops s)"

text \<open>
  \<^verbatim>\<open>row.save()\<close> of a new row and \<^verbatim>\<open>row.delete()\<close> of a row read from the table.
  Rows carry no key here: deleting the first row of a user, the one that \<open>in_active_loop\<close>
  returns, is removing the first row equal to it.
\<close>

definition save :: "ActiveLoops \<Rightarrow> store \<Rightarrow> store" where
  "save r s = s\<lparr>active_loops := active_loops s @ [r]\<rparr>"

definition delete :: "ActiveLoops \<Rightarrow> store \<Rightarrow> store" where
  "delete r s = s\<lparr>active_loops := remove1 r (active_loops s)\<rparr>"

subsection \<open>The handler\<close>

definition COMMAND_ERROR :: string where
  "COMMAND_ERROR = ''Sorry, that was an invalid command.''"

definition SESSION_BEGIN :: string where
  "SESSION_BEGIN =
     ''Working session has begun! To end the session, say '' @ [CHR 0x22] @ ''stop'' @ [CHR 0x22]"

definition SESSION_END :: string where
  "SESSION_END = ''Working session has ended! See a summary of your work here: %s''"

text \<open>The object of the user's session if there is one, \<open>None\<close> for \<^verbatim>\<open>False\<close>.\<close>

definition in_active_loop :: "User \<Rightarrow> store \<Rightarrow> ActiveLoops option" where
  "in_active_loop u s = (case sessions_of u s of [] \<Rightarrow> None | r # _ \<Rightarrow> Some r)"

text \<open>
  The old session is deleted before \<^verbatim>\<open>int(mssg_freq)\<close> is evaluated, and the new row is
  saved before the reply is formatted: an exception leaves the store as it is at that point.
\<close>

definition start_active_loop ::
  "User \<Rightarrow> string \<Rightarrow> string \<Rightarrow> store \<Rightarrow> (error + string) \<times> store" where
  "start_active_loop u freq sn s =
     (let s1 = (case in_active_loop u s of Some r \<Rightarrow> delete r s | None \<Rightarrow> s)
      in case py_int freq of
           None \<Rightarrow> (Inl ValueError, s1)
         | Some n \<Rightarrow>
             let s2 = save \<lparr>user = u, mssg_freq = n, mins_to_mssg = - 1 * n\<rparr> s1
             in (percent_format SESSION_BEGIN freq, s2))"

definition end_active_loop :: "User \<Rightarrow> store \<Rightarrow> (error + string) \<times> store" where
  "end_active_loop u s =
     (case in_active_loop u s of
        None \<Rightarrow> (Inr ''I can't believe you've done this'', s)
      | Some r \<Rightarrow>
          let s1 = delete r s; summary_link = ''google.com''
          in (percent_format SESSION_END summary_link, s1))"

definition log_user_response :: "User \<Rightarrow> string list \<Rightarrow> store \<Rightarrow> (error + string) \<times> store" where
  "log_user_response u text s = (Inr ''Response has been logged!'', s)"

text \<open>
  \<^verbatim>\<open>mssg[0]\<close> is read whatever the message is, and raises IndexError on the empty token
  list. Python's \<^verbatim>\<open>or\<close> does not evaluate \<^verbatim>\<open>mssg[1]\<close> and \<^verbatim>\<open>mssg[2]\<close> unless the
  list has three tokens; the disjunction below is true there whatever they are.
\<close>

definition handle_inbound_message ::
  "string \<Rightarrow> string \<Rightarrow> string \<Rightarrow> store \<Rightarrow> (error + string) \<times> store" where
  "handle_inbound_message mssg_text un sn s =
     (let mssg = split mssg_text;
          (u, s1) = get_or_create sn un s
      in case mssg of
           [] \<Rightarrow> (Inl IndexError, s1)
         | m0 # _ \<Rightarrow>
             if m0 = ''start'' then
               (if length mssg \<noteq> 3 \<or> \<not> (isdigit (mssg ! 1) \<or> mssg ! 2 \<noteq> ''hours'')
                then (Inr COMMAND_ERROR, s1)
                else start_active_loop u (mssg ! 1) sn s1)
             else if m0 = ''stop'' then
               (if length mssg \<noteq> 1 \<and> in_active_loop u s1 = None
                then (Inr COMMAND_ERROR, s1)
                else end_active_loop u s1)
             else
               (if in_active_loop u s1 = None
                then (Inr COMMAND_ERROR, s1)
                else log_user_response u mssg s1))"

subsection \<open>Example stores\<close>

definition empty_store :: store where
  "empty_store = \<lparr>users = [], active_loops = [], user_responses = []\<rparr>"

definition alice :: User where
  "alice = \<lparr>space_name = ''spaces/A'', user_name = ''users/1''\<rparr>"

text \<open>Alice in a session with ping frequency 3.\<close>

definition alice_store :: store where
  "alice_store =
     \<lparr>users = [alice],
      active_loops = [\<lparr>user = alice, mssg_freq = 3, mins_to_mssg = - 3\<rparr>],
      user_responses = []\<rparr>"

section \<open>Properties\<close>

subsection \<open>Formatting, tokens and the tables\<close>

lemma format_begin: "percent_format SESSION_BEGIN arg = Inl TypeError"
  by (simp add: percent_format_def SESSION_BEGIN_def prepend_def)

lemma format_end:
  "percent_format SESSION_END ''google.com'' =
     Inr ''Working session has ended! See a summary of your work here: google.com''"
  by (simp add: percent_format_def SESSION_END_def prepend_def)

lemma split_from_Nil: "split_from cs cur = [] \<longleftrightarrow> cur = [] \<and> (\<forall>c\<in>set cs. isspace c)"
  by (induction cs arbitrary: cur) auto

lemma split_Nil: "split txt = [] \<longleftrightarrow> (\<forall>c\<in>set txt. isspace c)"
  by (simp add: split_def split_from_Nil)

lemma get_or_create_user: "fst (get_or_create sn un s) = \<lparr>space_name = sn, user_name = un\<rparr>"
  by (simp add: get_or_create_def Let_def)

lemma get_or_create_loops: "active_loops (snd (get_or_create sn un s)) = active_loops s"
  by (simp add: get_or_create_def Let_def)

lemma get_or_create_responses:
  "user_responses (snd (get_or_create sn un s)) = user_responses s"
  by (simp add: get_or_create_def Let_def)

lemma get_or_create_sessions: "sessions_of u (snd (get_or_create sn un s)) = sessions_of u s"
  by (simp add: sessions_of_def get_or_create_loops)

lemma get_or_create_in_loop:
  "in_active_loop u (snd (get_or_create sn un s)) = in_active_loop u s"
  by (simp add: in_active_loop_def get_or_create_sessions)

text \<open>The handler on a message with at least one token, by the tokens after the first.\<close>

lemma handle_tokens:
  "split txt = m0 # rest \<Longrightarrow>
   handle_inbound_message txt un sn s =
     (let u = \<lparr>space_name = sn, user_name = un\<rparr>; s1 = snd (get_or_create sn un s)
      in if m0 = ''start'' then
           (if length rest \<noteq> 2 \<or> \<not> (isdigit (rest ! 0) \<or> rest ! 1 \<noteq> ''hours'')
            then (Inr COMMAND_ERROR, s1) else start_active_loop u (rest ! 0) sn s1)
         else if m0 = ''stop'' then
           (if rest \<noteq> [] \<and> in_active_loop u s = None
            then (Inr COMMAND_ERROR, s1) else end_active_loop u s1)
         else (if in_active_loop u s = None then (Inr COMMAND_ERROR, s1)
               else (Inr ''Response has been logged!'', s1)))"
  apply (simp add: handle_inbound_message_def Let_def split_beta get_or_create_user
      get_or_create_in_loop log_user_response_def del: One_nat_def)
  apply (auto simp: numeral_3_eq_3 numeral_2_eq_2)
  done

lemma start_outcome:
  "fst (start_active_loop u freq sn s) = Inl ValueError \<or>
   fst (start_active_loop u freq sn s) = Inl TypeError"
  by (simp add: start_active_loop_def Let_def format_begin split: option.splits)

lemma end_outcome:
  "fst (end_active_loop u s) = Inr ''I can't believe you've done this'' \<or>
   fst (end_active_loop u s) =
     Inr ''Working session has ended! See a summary of your work here: google.com''"
  by (simp add: end_active_loop_def Let_def format_end split: option.splits)

lemma end_not_COMMAND_ERROR: "fst (end_active_loop u s) \<noteq> Inr COMMAND_ERROR"
  using end_outcome [of u s] by (auto simp: COMMAND_ERROR_def)

lemma end_not_IndexError: "fst (end_active_loop u s) \<noteq> Inl IndexError"
  using end_outcome [of u s] by auto

lemma start_not_IndexError: "fst (start_active_loop u freq sn s) \<noteq> Inl IndexError"
  using start_outcome [of u freq sn s] by auto

lemma split_start_3_hours: "split ''start 3 hours'' = [''start'', ''3'', ''hours'']"
  by (simp add: split_def isspace_def)

lemma py_int_3: "py_int ''3'' = Some 3"
  by (simp add: py_int_def int_unsigned_def isdecimal_char_def digit_value_def)

subsection \<open>Messages without a token\<close>

text \<open>
  C10. The handler reads the first token of every message. It raises IndexError exactly
  when the message has no token, that is when every character of the text is whitespace
  (an empty text, or a non-empty one made of whitespace only); so a reply, or any other
  outcome, needs a character that is not whitespace.
\<close>

theorem IndexError_iff_whitespace_only:
  "fst (handle_inbound_message txt un sn s) = Inl IndexError \<longleftrightarrow> (\<forall>c\<in>set txt. isspace c)"
proof (cases "split txt")
  case Nil
  then have "fst (handle_inbound_message txt un sn s) = Inl IndexError"
    by (simp add: handle_inbound_message_def Let_def split_beta)
  with Nil show ?thesis by (simp add: split_Nil)
next
  case (Cons m0 rest)
  then have "\<not> (\<forall>c\<in>set txt. isspace c)"
    by (simp add: split_Nil [symmetric])
  moreover have "fst (handle_inbound_message txt un sn s) \<noteq> Inl IndexError"
    by (simp add: handle_tokens [OF Cons] Let_def start_not_IndexError end_not_IndexError)
  ultimately show ?thesis by simp
qed

theorem IndexError_iff_whitespace_only_witness:
  "isspace (CHR 0x20) \<and> isspace (CHR 0x09) \<and> isspace (CHR 0x0A) \<and>
   fst (handle_inbound_message [CHR 0x20, CHR 0x09, CHR 0x0A] ''users/1'' ''spaces/A''
          empty_store) = Inl IndexError"
  using IndexError_iff_whitespace_only
    [of "[CHR 0x20, CHR 0x09, CHR 0x0A]" "''users/1''" "''spaces/A''" empty_store]
  by (simp add: isspace_def)

subsection \<open>Starting a session\<close>

text \<open>
  C1. The claim is that every message gets a reply and none raises, a valid start in
  particular. On the code a message that passes the start check never gets a reply:
  \<^verbatim>\<open>int\<close> raises ValueError on the frequency token, or the row is saved and formatting
  the reply raises TypeError, since the begin-session template has no place for the
  argument it is given.
\<close>

theorem valid_start_raises:
  "split txt = [''start'', n, h] \<Longrightarrow> isdigit n \<or> h \<noteq> ''hours'' \<Longrightarrow>
   fst (handle_inbound_message txt un sn s) = Inl ValueError \<or>
   fst (handle_inbound_message txt un sn s) = Inl TypeError"
  by (simp add: handle_tokens Let_def start_outcome)

theorem valid_start_raises_witness:
  "split ''start 3 hours'' = [''start'', ''3'', ''hours''] \<and>
   (isdigit ''3'' \<or> ''hours'' \<noteq> ''hours'') \<and>
   (fst (handle_inbound_message ''start 3 hours'' ''users/1'' ''spaces/A'' empty_store)
      = Inl ValueError \<or>
    fst (handle_inbound_message ''start 3 hours'' ''users/1'' ''spaces/A'' empty_store)
      = Inl TypeError)"
proof -
  have t: "split ''start 3 hours'' = [''start'', ''3'', ''hours'']"
    by (simp add: split_def isspace_def)
  have d: "isdigit ''3'' \<or> ''hours'' \<noteq> ''hours''"
    by (simp add: isdigit_def isdigit_char_def)
  show ?thesis
    using t d valid_start_raises [OF t d, of "''users/1''" "''spaces/A''" empty_store]
    by simp
qed

text \<open>
  C2. For a user without a session, \<^verbatim>\<open>start 3 hours\<close> saves a session with ping
  frequency 3 and countdown -3; the handler then raises TypeError and returns no reply,
  where the claim has a reply containing the begin-session text.
\<close>

theorem start_3_hours_raises_TypeError:
  "in_active_loop \<lparr>space_name = sn, user_name = un\<rparr> s = None \<Longrightarrow>
   handle_inbound_message ''start 3 hours'' un sn s =
     (Inl TypeError,
      save \<lparr>user = \<lparr>space_name = sn, user_name = un\<rparr>, mssg_freq = 3, mins_to_mssg = - 3\<rparr>
        (snd (get_or_create sn un s)))"
  by (simp add: handle_tokens [OF split_start_3_hours] Let_def isdigit_def isdigit_char_def
      start_active_loop_def get_or_create_in_loop py_int_3 format_begin)

theorem start_3_hours_raises_TypeError_witness:
  "in_active_loop \<lparr>space_name = ''spaces/A'', user_name = ''users/1''\<rparr> empty_store = None \<and>
   handle_inbound_message ''start 3 hours'' ''users/1'' ''spaces/A'' empty_store =
     (Inl TypeError, alice_store)"
proof -
  have n: "in_active_loop \<lparr>space_name = ''spaces/A'', user_name = ''users/1''\<rparr> empty_store = None"
    by (simp add: in_active_loop_def sessions_of_def empty_store_def)
  show ?thesis
    using n start_3_hours_raises_TypeError [OF n]
    by (simp add: save_def get_or_create_def Let_def empty_store_def alice_store_def alice_def)
qed

lemma split_start_abc_xyz: "split ''start abc xyz'' = [''start'', ''abc'', ''xyz'']"
  by (simp add: split_def isspace_def)

lemma py_int_abc: "py_int ''abc'' = None"
  by (simp add: py_int_def int_unsigned_def isdecimal_char_def)

text \<open>
  C3. The claim is that a start message is routed to session start only with three tokens,
  a digit string and then \<^verbatim>\<open>hours\<close>, and answered with the invalid-command reply
  otherwise. The check of the code lets a third token other than \<^verbatim>\<open>hours\<close> pass whatever
  the second is: \<^verbatim>\<open>start abc xyz\<close> reaches session start, which deletes the user's
  session if there is one and raises ValueError at \<^verbatim>\<open>int('abc')\<close>.
\<close>

theorem start_abc_xyz_raises_ValueError:
  "handle_inbound_message ''start abc xyz'' un sn s =
     (Inl ValueError,
      case in_active_loop \<lparr>space_name = sn, user_name = un\<rparr> s of
        Some r \<Rightarrow> delete r (snd (get_or_create sn un s))
      | None \<Rightarrow> snd (get_or_create sn un s))"
  by (simp add: handle_tokens [OF split_start_abc_xyz] Let_def start_active_loop_def
      get_or_create_in_loop py_int_abc)

theorem start_abc_xyz_raises_ValueError_witness:
  "handle_inbound_message ''start abc xyz'' ''users/1'' ''spaces/A'' alice_store =
     (Inl ValueError, alice_store\<lparr>active_loops := []\<rparr>)"
  using start_abc_xyz_raises_ValueError [of "''users/1''" "''spaces/A''" alice_store]
  by (simp add: get_or_create_def Let_def in_active_loop_def sessions_of_def delete_def
      alice_store_def alice_def)

subsection \<open>Stopping a session\<close>

lemma alice_in_loop:
  "in_active_loop alice alice_store = Some \<lparr>user = alice, mssg_freq = 3, mins_to_mssg = - 3\<rparr>"
  by (simp add: in_active_loop_def sessions_of_def alice_store_def)

lemma alice_user: "\<lparr>space_name = ''spaces/A'', user_name = ''users/1''\<rparr> = alice"
  by (simp add: alice_def)

lemma get_or_create_alice:
  "get_or_create ''spaces/A'' ''users/1'' alice_store = (alice, alice_store)"
  by (simp add: get_or_create_def Let_def alice_store_def alice_def)

lemma get_or_create_empty:
  "get_or_create ''spaces/A'' ''users/1'' empty_store = (alice, empty_store\<lparr>users := [alice]\<rparr>)"
  by (simp add: get_or_create_def Let_def empty_store_def alice_def)

lemma split_stop_now: "split ''stop now'' = [''stop'', ''now'']"
  by (simp add: split_def isspace_def)

lemma split_stop_it_now: "split ''stop it now'' = [''stop'', ''it'', ''now'']"
  by (simp add: split_def isspace_def)

text \<open>
  C4, as stated, fails: the claim takes a stop message of several tokens as a valid stop
  when the user has no session. For such a user \<^verbatim>\<open>stop now\<close> gets the invalid-command
  reply, not the reply of stop handling.
\<close>

theorem stop_now_without_session_rejected:
  "in_active_loop alice empty_store = None \<and>
   handle_inbound_message ''stop now'' ''users/1'' ''spaces/A'' empty_store =
     (Inr COMMAND_ERROR, empty_store\<lparr>users := [alice]\<rparr>) \<and>
   end_active_loop alice (empty_store\<lparr>users := [alice]\<rparr>) =
     (Inr ''I can't believe you've done this'', empty_store\<lparr>users := [alice]\<rparr>) \<and>
   handle_inbound_message ''stop now'' ''users/1'' ''spaces/A'' empty_store \<noteq>
     end_active_loop alice (empty_store\<lparr>users := [alice]\<rparr>)"
proof -
  have n: "in_active_loop alice empty_store = None"
    by (simp add: in_active_loop_def sessions_of_def empty_store_def)
  have n': "in_active_loop alice (empty_store\<lparr>users := [alice]\<rparr>) = None"
    by (simp add: in_active_loop_def sessions_of_def empty_store_def)
  show ?thesis
    by (simp add: handle_tokens [OF split_stop_now] Let_def alice_user n n' get_or_create_empty
        end_active_loop_def COMMAND_ERROR_def)
qed

text \<open>
  C4, amended. A message whose first token is \<^verbatim>\<open>stop\<close> is routed to stop handling if and
  only if it is that one token or the user has an active session; otherwise the reply is
  the invalid-command string. The two cases are told apart by the reply: stop handling
  never returns the invalid-command string.
\<close>

theorem stop_dispatch:
  "split txt = ''stop'' # rest \<Longrightarrow>
   handle_inbound_message txt un sn s =
     (if rest = [] \<or> in_active_loop \<lparr>space_name = sn, user_name = un\<rparr> s \<noteq> None
      then end_active_loop \<lparr>space_name = sn, user_name = un\<rparr> (snd (get_or_create sn un s))
      else (Inr COMMAND_ERROR, snd (get_or_create sn un s))) \<and>
   fst (end_active_loop \<lparr>space_name = sn, user_name = un\<rparr> (snd (get_or_create sn un s)))
     \<noteq> Inr COMMAND_ERROR"
  by (simp add: handle_tokens Let_def end_not_COMMAND_ERROR)

theorem stop_dispatch_witness:
  "split ''stop it now'' = ''stop'' # [''it'', ''now''] \<and>
   handle_inbound_message ''stop it now'' ''users/1'' ''spaces/A'' alice_store =
     (Inr ''Working session has ended! See a summary of your work here: google.com'',
      alice_store\<lparr>active_loops := []\<rparr>)"
proof -
  have e: "end_active_loop alice alice_store =
      (Inr ''Working session has ended! See a summary of your work here: google.com'',
       alice_store\<lparr>active_loops := []\<rparr>)"
    by (simp add: end_active_loop_def alice_in_loop format_end delete_def)
      (simp add: alice_store_def)
  show ?thesis
    using stop_dispatch [OF split_stop_it_now, of "''users/1''" "''spaces/A''" alice_store]
    by (simp add: split_stop_it_now alice_user alice_in_loop get_or_create_alice e)
qed

lemma split_stop: "split ''stop'' = [''stop'']"
  by (simp add: split_def isspace_def)

lemma handle_stop:
  "handle_inbound_message ''stop'' un sn s =
     end_active_loop \<lparr>space_name = sn, user_name = un\<rparr> (snd (get_or_create sn un s))"
  by (simp add: handle_tokens [OF split_stop] Let_def)

lemma end_in_session:
  "in_active_loop u s = Some r \<Longrightarrow>
   end_active_loop u s =
     (Inr ''Working session has ended! See a summary of your work here: google.com'',
      delete r s)"
  by (simp add: end_active_loop_def Let_def format_end)

lemma end_no_session:
  "in_active_loop u s = None \<Longrightarrow>
   end_active_loop u s = (Inr ''I can't believe you've done this'', s)"
  by (simp add: end_active_loop_def)

lemma in_active_loop_None_iff: "in_active_loop u s = None \<longleftrightarrow> sessions_of u s = []"
  by (simp add: in_active_loop_def split: list.splits)

subsection \<open>At most one session for a user\<close>

text \<open>
  The invariant of the table of sessions: no two rows have the same user. Deleting the
  row that \<open>in_active_loop\<close> returns then leaves the user without a session.
\<close>

lemma filter_Cons_sat: "filter P xs = r # rs \<Longrightarrow> P r"
proof -
  assume "filter P xs = r # rs"
  then have "r \<in> set (filter P xs)" by simp
  then show "P r" by simp
qed

lemma in_remove1D: "x \<in> set (remove1 r xs) \<Longrightarrow> x \<in> set xs"
  by (metis notin_set_remove1)

lemma distinct_users_remove1:
  "distinct (map user xs) \<Longrightarrow> distinct (map user (remove1 r xs))"
proof (induction xs)
  case Nil
  then show ?case by simp
next
  case (Cons x xs)
  have "set (remove1 r xs) \<subseteq> set xs" by (rule set_remove1_subset)
  with Cons show ?case by auto
qed

lemma first_session_removed:
  "distinct (map user xs) \<Longrightarrow> filter (\<lambda>x. user x = u) xs = r # rs \<Longrightarrow>
   filter (\<lambda>x. user x = u) (remove1 r xs) = []"
proof (induction xs)
  case Nil
  then show ?case by simp
next
  case (Cons x xs)
  show ?case
  proof (cases "user x = u")
    case True
    with Cons.prems have "x = r" by simp
    moreover from Cons.prems(1) True have "\<forall>y\<in>set xs. user y \<noteq> u"
      by (auto simp: image_iff)
    ultimately show ?thesis by (simp add: filter_empty_conv)
  next
    case False
    from Cons.prems(2) have "user r = u" by (rule filter_Cons_sat)
    with False have "x \<noteq> r" by auto
    with Cons False show ?thesis by simp
  qed
qed

text \<open>The store of \<open>start_active_loop\<close> after the old session is deleted.\<close>

lemma cleared_distinct:
  "distinct (map user (active_loops s)) \<Longrightarrow>
   distinct (map user
     (active_loops (case in_active_loop u s of Some r \<Rightarrow> delete r s | None \<Rightarrow> s)))"
  by (simp add: delete_def distinct_users_remove1 split: option.splits)

lemma cleared_no_session:
  "distinct (map user (active_loops s)) \<Longrightarrow>
   sessions_of u (case in_active_loop u s of Some r \<Rightarrow> delete r s | None \<Rightarrow> s) = []"
  by (auto simp: in_active_loop_def sessions_of_def delete_def first_session_removed
      split: option.splits list.splits)

lemma sessions_Nil_iff: "sessions_of u s = [] \<longleftrightarrow> u \<notin> user ` set (active_loops s)"
  by (auto simp: sessions_of_def filter_empty_conv)

lemma start_distinct:
  assumes "distinct (map user (active_loops s))"
  shows "distinct (map user (active_loops (snd (start_active_loop u freq sn s))))"
proof -
  let ?s1 = "case in_active_loop u s of Some r \<Rightarrow> delete r s | None \<Rightarrow> s"
  have d: "distinct (map user (active_loops ?s1))"
    using assms by (rule cleared_distinct)
  have n: "u \<notin> user ` set (active_loops ?s1)"
    using cleared_no_session [OF assms, of u] by (simp add: sessions_Nil_iff)
  show ?thesis
    using d n by (simp add: start_active_loop_def Let_def save_def split: option.splits)
qed

lemma end_distinct:
  "distinct (map user (active_loops s)) \<Longrightarrow>
   distinct (map user (active_loops (snd (end_active_loop u s))))"
  by (simp add: end_active_loop_def Let_def delete_def distinct_users_remove1
      split: option.splits)

lemma handle_distinct:
  assumes "distinct (map user (active_loops s))"
  shows "distinct (map user (active_loops (snd (handle_inbound_message txt un sn s))))"
proof (cases "split txt")
  case Nil
  then show ?thesis
    using assms by (simp add: handle_inbound_message_def Let_def split_beta get_or_create_loops)
next
  case (Cons m0 rest)
  have d: "distinct (map user (active_loops (snd (get_or_create sn un s))))"
    using assms by (simp add: get_or_create_loops)
  show ?thesis
    by (simp add: handle_tokens [OF Cons] Let_def d start_distinct end_distinct)
qed

lemma split_start_5_hours: "split ''start 5 hours'' = [''start'', ''5'', ''hours'']"
  by (simp add: split_def isspace_def)

lemma py_int_5: "py_int ''5'' = Some 5"
  by (simp add: py_int_def int_unsigned_def isdecimal_char_def digit_value_def)

lemma start_5_hours_store:
  "snd (handle_inbound_message ''start 5 hours'' un sn s) =
     save \<lparr>user = \<lparr>space_name = sn, user_name = un\<rparr>, mssg_freq = 5, mins_to_mssg = - 5\<rparr>
       (case in_active_loop \<lparr>space_name = sn, user_name = un\<rparr> (snd (get_or_create sn un s)) of
          Some r \<Rightarrow> delete r (snd (get_or_create sn un s))
        | None \<Rightarrow> snd (get_or_create sn un s))"
  by (simp add: handle_tokens [OF split_start_5_hours] Let_def isdigit_def isdigit_char_def
      start_active_loop_def py_int_5)

text \<open>
  C5. Every message the handler processes keeps the invariant that no user has two
  sessions. For a user whose session has ping frequency 3, \<^verbatim>\<open>start 5 hours\<close> leaves
  exactly one session of that user in the table, with ping frequency 5, and the old row is
  gone. (The claim is about the table; what the call returns is the matter of C1 and C2.)
\<close>

theorem start_replaces_session:
  assumes inv: "distinct (map user (active_loops s))"
  shows "distinct (map user (active_loops (snd (handle_inbound_message txt un sn s)))) \<and>
    (in_active_loop \<lparr>space_name = sn, user_name = un\<rparr> s = Some r \<and> mssg_freq r = 3 \<longrightarrow>
       sessions_of \<lparr>space_name = sn, user_name = un\<rparr>
           (snd (handle_inbound_message ''start 5 hours'' un sn s)) =
         [\<lparr>user = \<lparr>space_name = sn, user_name = un\<rparr>, mssg_freq = 5, mins_to_mssg = - 5\<rparr>] \<and>
       r \<notin> set (active_loops (snd (handle_inbound_message ''start 5 hours'' un sn s))))"
proof (intro conjI impI)
  show "distinct (map user (active_loops (snd (handle_inbound_message txt un sn s))))"
    using inv by (rule handle_distinct)
next
  let ?u = "\<lparr>space_name = sn, user_name = un\<rparr>"
  let ?s0 = "snd (get_or_create sn un s)"
  let ?s1 = "case in_active_loop ?u ?s0 of Some r \<Rightarrow> delete r ?s0 | None \<Rightarrow> ?s0"
  assume a: "in_active_loop ?u s = Some r \<and> mssg_freq r = 3"
  have d: "distinct (map user (active_loops ?s0))"
    using inv by (simp add: get_or_create_loops)
  have n: "sessions_of ?u ?s1 = []"
    using d by (rule cleared_no_session)
  show "sessions_of ?u (snd (handle_inbound_message ''start 5 hours'' un sn s)) =
         [\<lparr>user = ?u, mssg_freq = 5, mins_to_mssg = - 5\<rparr>]"
    using n by (simp add: start_5_hours_store) (simp add: sessions_of_def save_def)
  from a have ur: "user r = ?u"
    by (auto simp: in_active_loop_def sessions_of_def split: list.splits dest: filter_Cons_sat)
  from n ur have "r \<notin> set (active_loops ?s1)"
    by (auto simp: sessions_of_def filter_empty_conv)
  with a show "r \<notin> set (active_loops (snd (handle_inbound_message ''start 5 hours'' un sn s)))"
    by (auto simp: start_5_hours_store save_def)
qed

theorem start_replaces_session_witness:
  "distinct (map user (active_loops alice_store)) \<and>
   in_active_loop alice alice_store =
     Some \<lparr>user = alice, mssg_freq = 3, mins_to_mssg = - 3\<rparr> \<and>
   distinct (map user (active_loops
     (snd (handle_inbound_message ''stop'' ''users/1'' ''spaces/A'' alice_store)))) \<and>
   sessions_of alice
       (snd (handle_inbound_message ''start 5 hours'' ''users/1'' ''spaces/A'' alice_store)) =
     [\<lparr>user = alice, mssg_freq = 5, mins_to_mssg = - 5\<rparr>] \<and>
   \<lparr>user = alice, mssg_freq = 3, mins_to_mssg = - 3\<rparr> \<notin>
     set (active_loops
       (snd (handle_inbound_message ''start 5 hours'' ''users/1'' ''spaces/A'' alice_store)))"
proof -
  have d: "distinct (map user (active_loops alice_store))"
    by (simp add: alice_store_def)
  show ?thesis
    using d start_replaces_session [OF d, of "''stop''" "''users/1''" "''spaces/A''"
        "\<lparr>user = alice, mssg_freq = 3, mins_to_mssg = - 3\<rparr>"]
    by (simp add: alice_user alice_in_loop)
qed

subsection \<open>Stop, and stop again\<close>

text \<open>
  C6. For a user with a session (and no second one), \<^verbatim>\<open>stop\<close> deletes the session and
  returns the end-session template with the summary link in it; the user then has no
  session. \<^verbatim>\<open>stop\<close> on the resulting store returns the no-session reply and the user
  still has no session.
\<close>

theorem stop_then_stop_again:
  assumes inv: "distinct (map user (active_loops s))"
    and ses: "in_active_loop \<lparr>space_name = sn, user_name = un\<rparr> s = Some r"
  shows "handle_inbound_message ''stop'' un sn s =
           (Inr ''Working session has ended! See a summary of your work here: google.com'',
            delete r (snd (get_or_create sn un s))) \<and>
         in_active_loop \<lparr>space_name = sn, user_name = un\<rparr>
           (delete r (snd (get_or_create sn un s))) = None \<and>
         handle_inbound_message ''stop'' un sn (delete r (snd (get_or_create sn un s))) =
           (Inr ''I can't believe you've done this'',
            snd (get_or_create sn un (delete r (snd (get_or_create sn un s))))) \<and>
         in_active_loop \<lparr>space_name = sn, user_name = un\<rparr>
           (snd (get_or_create sn un (delete r (snd (get_or_create sn un s))))) = None"
proof -
  let ?u = "\<lparr>space_name = sn, user_name = un\<rparr>"
  let ?s0 = "snd (get_or_create sn un s)"
  have ses0: "in_active_loop ?u ?s0 = Some r"
    using ses by (simp add: get_or_create_in_loop)
  have d0: "distinct (map user (active_loops ?s0))"
    using inv by (simp add: get_or_create_loops)
  have "sessions_of ?u
      (case in_active_loop ?u ?s0 of Some r \<Rightarrow> delete r ?s0 | None \<Rightarrow> ?s0) = []"
    using d0 by (rule cleared_no_session)
  then have n: "in_active_loop ?u (delete r ?s0) = None"
    by (simp add: ses0 in_active_loop_None_iff)
  then have n': "in_active_loop ?u (snd (get_or_create sn un (delete r ?s0))) = None"
    by (simp add: get_or_create_in_loop)
  show ?thesis
    by (simp add: handle_stop end_in_session [OF ses0] n n' end_no_session)
qed

theorem stop_then_stop_again_witness:
  "distinct (map user (active_loops alice_store)) \<and>
   in_active_loop \<lparr>space_name = ''spaces/A'', user_name = ''users/1''\<rparr> alice_store =
     Some \<lparr>user = alice, mssg_freq = 3, mins_to_mssg = - 3\<rparr> \<and>
   handle_inbound_message ''stop'' ''users/1'' ''spaces/A'' alice_store =
     (Inr ''Working session has ended! See a summary of your work here: google.com'',
      alice_store\<lparr>active_loops := []\<rparr>) \<and>
   handle_inbound_message ''stop'' ''users/1'' ''spaces/A''
       (alice_store\<lparr>active_loops := []\<rparr>) =
     (Inr ''I can't believe you've done this'', alice_store\<lparr>active_loops := []\<rparr>)"
proof -
  have d: "distinct (map user (active_loops alice_store))"
    by (simp add: alice_store_def)
  have l: "in_active_loop \<lparr>space_name = ''spaces/A'', user_name = ''users/1''\<rparr> alice_store =
     Some \<lparr>user = alice, mssg_freq = 3, mins_to_mssg = - 3\<rparr>"
    by (simp add: alice_user alice_in_loop)
  have e: "delete \<lparr>user = alice, mssg_freq = 3, mins_to_mssg = - 3\<rparr> alice_store =
      alice_store\<lparr>active_loops := []\<rparr>"
    by (simp add: delete_def alice_store_def)
  have g: "get_or_create ''spaces/A'' ''users/1'' (alice_store\<lparr>active_loops := []\<rparr>) =
      (alice, alice_store\<lparr>active_loops := []\<rparr>)"
    by (simp add: get_or_create_def Let_def alice_store_def alice_def)
  show ?thesis
    using d l stop_then_stop_again [OF d l] by (simp add: get_or_create_alice e g)
qed

subsection \<open>Other messages\<close>

text \<open>
  C7. The claim has a logged response created for the text of a user in a session. On
  the code such a message, its first token neither \<^verbatim>\<open>start\<close> nor \<^verbatim>\<open>stop\<close>, is
  answered with \<^verbatim>\<open>Response has been logged!\<close> and the store is the one after looking
  the user up: \<open>log_user_response\<close>, documented as storing the response in the
  UserResponse table, writes no table.
\<close>

theorem log_acknowledged:
  "in_active_loop \<lparr>space_name = sn, user_name = un\<rparr> s \<noteq> None \<Longrightarrow>
   split txt = t # ts \<Longrightarrow> t \<noteq> ''start'' \<Longrightarrow> t \<noteq> ''stop'' \<Longrightarrow>
   handle_inbound_message txt un sn s =
     (Inr ''Response has been logged!'', snd (get_or_create sn un s))"
  by (auto simp: handle_tokens Let_def)

theorem log_acknowledged_witness:
  "in_active_loop \<lparr>space_name = ''spaces/A'', user_name = ''users/1''\<rparr> alice_store \<noteq> None \<and>
   split ''foo bar baz'' = ''foo'' # [''bar'', ''baz''] \<and>
   ''foo'' \<noteq> ''start'' \<and> ''foo'' \<noteq> ''stop'' \<and>
   handle_inbound_message ''foo bar baz'' ''users/1'' ''spaces/A'' alice_store =
     (Inr ''Response has been logged!'', alice_store) \<and>
   user_responses alice_store = []"
proof -
  have t: "split ''foo bar baz'' = ''foo'' # [''bar'', ''baz'']"
    by (simp add: split_def isspace_def)
  have l: "in_active_loop \<lparr>space_name = ''spaces/A'', user_name = ''users/1''\<rparr> alice_store
      \<noteq> None"
    by (simp add: alice_user alice_in_loop)
  have n1: "''foo'' \<noteq> ''start''" by simp
  have n2: "''foo'' \<noteq> ''stop''" by simp
  have r: "user_responses alice_store = []"
    by (simp add: alice_store_def)
  show ?thesis
    using l t r log_acknowledged [OF l t n1 n2] by (simp add: get_or_create_alice)
qed

text \<open>
  C8. For a user without a session, a message whose first token is neither \<^verbatim>\<open>start\<close>
  nor \<^verbatim>\<open>stop\<close> returns the invalid-command string; the sessions and the responses are
  as before and the user still has no session. (Looking the user up may add the user's
  own row to the table of users.)
\<close>

theorem other_command_without_session_rejected:
  "in_active_loop \<lparr>space_name = sn, user_name = un\<rparr> s = None \<Longrightarrow>
   split txt = t # ts \<Longrightarrow> t \<noteq> ''start'' \<Longrightarrow> t \<noteq> ''stop'' \<Longrightarrow>
   handle_inbound_message txt un sn s = (Inr COMMAND_ERROR, snd (get_or_create sn un s)) \<and>
   COMMAND_ERROR = ''Sorry, that was an invalid command.'' \<and>
   active_loops (snd (get_or_create sn un s)) = active_loops s \<and>
   user_responses (snd (get_or_create sn un s)) = user_responses s \<and>
   in_active_loop \<lparr>space_name = sn, user_name = un\<rparr> (snd (get_or_create sn un s)) = None"
  by (simp add: handle_tokens Let_def get_or_create_loops get_or_create_responses
      get_or_create_in_loop COMMAND_ERROR_def)

theorem other_command_without_session_rejected_witness:
  "in_active_loop \<lparr>space_name = ''spaces/A'', user_name = ''users/1''\<rparr> empty_store = None \<and>
   split ''foo bar baz'' = ''foo'' # [''bar'', ''baz''] \<and>
   ''foo'' \<noteq> ''start'' \<and> ''foo'' \<noteq> ''stop'' \<and>
   handle_inbound_message ''foo bar baz'' ''users/1'' ''spaces/A'' empty_store =
     (Inr ''Sorry, that was an invalid command.'', empty_store\<lparr>users := [alice]\<rparr>)"
proof -
  have t: "split ''foo bar baz'' = ''foo'' # [''bar'', ''baz'']"
    by (simp add: split_def isspace_def)
  have l: "in_active_loop \<lparr>space_name = ''spaces/A'', user_name = ''users/1''\<rparr> empty_store
      = None"
    by (simp add: in_active_loop_def sessions_of_def empty_store_def)
  have n1: "''foo'' \<noteq> ''start''" by simp
  have n2: "''foo'' \<noteq> ''stop''" by simp
  show ?thesis
    using l t other_command_without_session_rejected [OF l t n1 n2]
    by (simp add: get_or_create_empty)
qed

subsection \<open>The rows that a start creates\<close>

lemma digit_value_nonneg: "isdecimal_char c \<Longrightarrow> 0 \<le> digit_value c"
  by (simp add: isdecimal_char_def digit_value_def Let_def)

lemma int_digits_nonneg: "0 \<le> acc \<Longrightarrow> int_digits acc s = Some k \<Longrightarrow> 0 \<le> k"
proof (induction s arbitrary: acc)
  case Nil
  then show ?case by simp
next
  case (Cons c cs)
  show ?case
  proof (cases "isdecimal_char c")
    case True
    with Cons.prems have "int_digits (10 * acc + digit_value c) cs = Some k"
      by simp
    moreover from True Cons.prems(1) have "0 \<le> 10 * acc + digit_value c"
      using digit_value_nonneg [of c] by simp
    ultimately show ?thesis by (rule Cons.IH [rotated])
  next
    case False
    with Cons.prems have "int_digits acc cs = Some k"
      by (auto split: if_splits list.splits)
    with Cons.prems(1) show ?thesis by (rule Cons.IH)
  qed
qed

lemma int_unsigned_nonneg: "int_unsigned s = Some k \<Longrightarrow> 0 \<le> k"
proof -
  assume "int_unsigned s = Some k"
  then have "int_digits 0 s = Some k"
    by (auto simp: int_unsigned_def split: list.splits if_splits)
  with int_digits_nonneg [of 0 s k] show ?thesis by simp
qed

lemma isdigit_py_int_nonneg: "isdigit n \<Longrightarrow> py_int n = Some k \<Longrightarrow> 0 \<le> k"
proof -
  assume d: "isdigit n" and p: "py_int n = Some k"
  from d obtain c cs where n: "n = c # cs" and c: "isdigit_char c"
    by (cases n) (auto simp: isdigit_def)
  from c have "c \<noteq> CHR ''-''" and "c \<noteq> CHR ''+''"
    by (auto simp: isdigit_char_def)
  with p n have "int_unsigned n = Some k"
    by (simp add: py_int_def)
  then show ?thesis by (rule int_unsigned_nonneg)
qed

lemma split_start_0_hours: "split ''start 0 hours'' = [''start'', ''0'', ''hours'']"
  by (simp add: split_def isspace_def)

lemma py_int_0: "py_int ''0'' = Some 0"
  by (simp add: py_int_def int_unsigned_def isdecimal_char_def digit_value_def)

text \<open>
  A start whose third token is not \<^verbatim>\<open>hours\<close> passes the check whatever its second token
  is (the defect of C3), and a signed second token then gives a row with a negative ping
  frequency. Such messages are outside the statements below.
\<close>

lemma split_start_minus_3_xyz: "split ''start -3 xyz'' = [''start'', ''-3'', ''xyz'']"
  by (simp add: split_def isspace_def)

lemma py_int_minus_3: "py_int ''-3'' = Some (- 3)"
  by (simp add: py_int_def int_unsigned_def isdecimal_char_def digit_value_def)

lemma start_minus_3_xyz_row:
  "active_loops
     (snd (handle_inbound_message ''start -3 xyz'' ''users/1'' ''spaces/A'' empty_store)) =
     [\<lparr>user = alice, mssg_freq = - 3, mins_to_mssg = 3\<rparr>]"
proof -
  have n: "in_active_loop alice (empty_store\<lparr>users := [alice]\<rparr>) = None"
    by (simp add: in_active_loop_def sessions_of_def empty_store_def)
  show ?thesis
    by (simp add: handle_tokens [OF split_start_minus_3_xyz] Let_def start_active_loop_def
        alice_user n get_or_create_empty py_int_minus_3 save_def)
      (simp add: empty_store_def)
qed

text \<open>
  C9, as stated, fails: the claim has every created session with a strictly positive ping
  frequency. \<^verbatim>\<open>start 0 hours\<close> passes the check and creates a session with ping frequency
  0 (and countdown 0).
\<close>

theorem start_0_hours_zero_frequency:
  "active_loops
     (snd (handle_inbound_message ''start 0 hours'' ''users/1'' ''spaces/A'' empty_store)) =
     [\<lparr>user = alice, mssg_freq = 0, mins_to_mssg = 0\<rparr>] \<and>
   \<not> 0 < mssg_freq \<lparr>user = alice, mssg_freq = 0, mins_to_mssg = 0\<rparr>"
proof -
  have n: "in_active_loop alice (empty_store\<lparr>users := [alice]\<rparr>) = None"
    by (simp add: in_active_loop_def sessions_of_def empty_store_def)
  show ?thesis
    by (simp add: handle_tokens [OF split_start_0_hours] Let_def isdigit_def isdigit_char_def
        start_active_loop_def alice_user n get_or_create_empty py_int_0 save_def)
      (simp add: empty_store_def)
qed

text \<open>
  C9, amended. Every session created by a dispatched command \<^verbatim>\<open>start N hours\<close> has a
  ping frequency that is not negative (it is 0 for \<^verbatim>\<open>start 0 hours\<close>), and its countdown
  is the negation of that frequency. The table after such a message is the table without
  the user's old session, followed when \<^verbatim>\<open>int\<close> accepts \<^verbatim>\<open>N\<close> by the one created row;
  a message that does not pass the check leaves the table as it was.
\<close>

theorem created_session_fields:
  assumes tok: "split txt = [''start'', n, ''hours'']"
  shows "let u = \<lparr>space_name = sn, user_name = un\<rparr>;
             old = (case in_active_loop u s of
                      Some r \<Rightarrow> remove1 r (active_loops s)
                    | None \<Rightarrow> active_loops s);
             new = active_loops (snd (handle_inbound_message txt un sn s))
         in if isdigit n then
              (case py_int n of
                 Some k \<Rightarrow> 0 \<le> k \<and> new = old @ [\<lparr>user = u, mssg_freq = k, mins_to_mssg = - k\<rparr>]
               | None \<Rightarrow> new = old)
            else new = active_loops s"
proof (cases "isdigit n")
  case False
  then show ?thesis
    by (simp add: handle_tokens [OF tok] Let_def get_or_create_loops)
next
  case True
  show ?thesis
  proof (cases "py_int n")
    case None
    with True show ?thesis
      by (simp add: handle_tokens [OF tok] Let_def start_active_loop_def get_or_create_in_loop
          delete_def get_or_create_loops split: option.splits)
  next
    case (Some k)
    with True have "0 \<le> k" by (rule isdigit_py_int_nonneg)
    with True Some show ?thesis
      by (simp add: handle_tokens [OF tok] Let_def start_active_loop_def get_or_create_in_loop
          delete_def save_def get_or_create_loops split: option.splits)
  qed
qed

theorem created_session_fields_witness:
  "split ''start 3 hours'' = [''start'', ''3'', ''hours''] \<and>
   isdigit ''3'' \<and> py_int ''3'' = Some 3 \<and>
   in_active_loop alice alice_store =
     Some \<lparr>user = alice, mssg_freq = 3, mins_to_mssg = - 3\<rparr> \<and>
   active_loops
     (snd (handle_inbound_message ''start 3 hours'' ''users/1'' ''spaces/A'' alice_store)) =
     remove1 \<lparr>user = alice, mssg_freq = 3, mins_to_mssg = - 3\<rparr> (active_loops alice_store) @
       [\<lparr>user = alice, mssg_freq = 3, mins_to_mssg = - 3\<rparr>]"
proof -
  have d: "isdigit ''3''"
    by (simp add: isdigit_def isdigit_char_def)
  show ?thesis
    using d created_session_fields [OF split_start_3_hours,
        where un = "''users/1''" and sn = "''spaces/A''" and s = alice_store]
    by (simp add: split_start_3_hours py_int_3 alice_user alice_in_loop Let_def)
qed

end
